theory Spec2Isabelle
  imports Main "HOL-Library.AList"
begin

section \<open>Data model\<close>

text \<open>
  The crossword solver of \<^verbatim>\<open>generate.py\<close> (class \<^verbatim>\<open>CrosswordCreator\<close>).
  Python sets and dicts are kept as lists in their iteration order: a set of words is a
  list of words without repetition, a dict is an association list in insertion order.
  Every exception the source can raise is a value of \<open>error\<close>, returned as \<open>Inl\<close>.
\<close>

datatype direction = ACROSS | DOWN

record variable =
  var_i :: nat
  var_j :: nat
  var_direction :: direction
  var_length :: nat

datatype error = KeyError | IndexError | TypeError | RuntimeError

type_synonym word = string
type_synonym domains = "(variable \<times> word list) list"
type_synonym assignment = "(variable \<times> word) list"
type_synonym arc = "variable \<times> variable"

text \<open>
  The class \<^verbatim>\<open>Crossword\<close> is imported by the source from a module that is not part of
  it; its attributes are parameters of the model. \<open>variables\<close> and \<open>words\<close> are the
  two sets in iteration order. \<open>overlaps\<close> is the dict read as
  \<^verbatim>\<open>self.crossword.overlaps[x, y]\<close>: \<open>None\<close> when the key is missing (a KeyError),
  \<open>Some None\<close> for the value \<^verbatim>\<open>None\<close>, \<open>Some (Some (i, j))\<close> for a pair of indices.
\<close>

record crossword =
  variables :: "variable list"
  words :: "word list"
  overlaps :: "arc \<Rightarrow> (nat \<times> nat) option option"

text \<open>
  Modelled from the spec: the method \<^verbatim>\<open>Crossword.neighbors\<close> is missing from the
  source; the specification describes it as the query returning, for a variable, all
  variables that overlap it. The result is a set; it is listed in the order of
  \<open>variables\<close>.
\<close>

definition neighbors :: "crossword \<Rightarrow> variable \<Rightarrow> variable list" where
  "neighbors cw var =
     filter (\<lambda>v. v \<noteq> var \<and> (case overlaps cw (v, var) of Some (Some ov) \<Rightarrow> True | _ \<Rightarrow> False))
       (variables cw)"

text \<open>\<^verbatim>\<open>__init__\<close>: every variable starts with a copy of the whole word set.\<close>

definition init_domains :: "crossword \<Rightarrow> domains" where
  "init_domains cw = map (\<lambda>var. (var, words cw)) (variables cw)"

section \<open>Node consistency\<close>

text \<open>\<^verbatim>\<open>s.remove(w)\<close> on a set: a KeyError when \<open>w\<close> is not a member.\<close>

definition set_remove :: "word list \<Rightarrow> word \<Rightarrow> error + word list" where
  "set_remove d w = (if w \<in> set d then Inr (removeAll w d) else Inl KeyError)"

text \<open>
  The inner loop of \<^verbatim>\<open>enforce_node_consistency\<close>: it runs over the copy of the domain
  and removes from the live domain \<open>d\<close> each word whose length is not \<open>n\<close>.
\<close>

fun node_words :: "nat \<Rightarrow> word list \<Rightarrow> word list \<Rightarrow> error + word list" where
  "node_words n [] d = Inr d"
| "node_words n (w # domainCopy) d =
     (if length w \<noteq> n then
        (case set_remove d w of Inl e \<Rightarrow> Inl e | Inr d' \<Rightarrow> node_words n domainCopy d')
      else node_words n domainCopy d)"

text \<open>The outer loop, over the keys of \<^verbatim>\<open>self.domains\<close>.\<close>

fun node_keys :: "variable list \<Rightarrow> domains \<Rightarrow> error + domains" where
  "node_keys [] doms = Inr doms"
| "node_keys (key # keys) doms =
     (case map_of doms key of
        None \<Rightarrow> Inl KeyError
      | Some d \<Rightarrow>
          (case node_words (var_length key) d d of
             Inl e \<Rightarrow> Inl e
           | Inr d' \<Rightarrow> node_keys keys (AList.update key d' doms)))"

definition enforce_node_consistency :: "domains \<Rightarrow> error + domains" where
  "enforce_node_consistency doms = node_keys (map fst doms) doms"

section \<open>Arc consistency\<close>

text \<open>
  The inner loop of \<^verbatim>\<open>revise\<close> for one value \<open>val_x\<close>, over the values of
  \<^verbatim>\<open>self.domains[y]\<close>; \<open>n\<close> is \<^verbatim>\<open>len(self.domains[y])\<close>, \<open>(dx, made)\<close> are the live
  domain of \<open>x\<close> and the flag \<^verbatim>\<open>revisone_made\<close>. Indexing a word beyond its end is an
  IndexError. When \<open>x\<close> and \<open>y\<close> are the same variable (\<open>same\<close>) the removal changes the
  set that is being iterated, and the next step of the iteration is a RuntimeError.
\<close>

fun revise_inner ::
  "bool \<Rightarrow> nat \<Rightarrow> nat \<Rightarrow> word \<Rightarrow> nat \<Rightarrow> word list \<Rightarrow> nat \<Rightarrow> word list \<times> bool
   \<Rightarrow> error + (word list \<times> bool)" where
  "revise_inner same i j val_x n [] count st = Inr st"
| "revise_inner same i j val_x n (val_y # rest) count (dx, made) =
     (if length val_y \<le> j \<or> length val_x \<le> i then Inl IndexError
      else if (if val_y ! j \<noteq> val_x ! i then count + 1 else count) = n then
        (case set_remove dx val_x of
           Inl e \<Rightarrow> Inl e
         | Inr dx' \<Rightarrow>
             if same then Inl RuntimeError
             else revise_inner same i j val_x n rest
                    (if val_y ! j \<noteq> val_x ! i then count + 1 else count) (dx', True))
      else revise_inner same i j val_x n rest
             (if val_y ! j \<noteq> val_x ! i then count + 1 else count) (dx, made))"

text \<open>
  The outer loop of \<^verbatim>\<open>revise\<close>, over the copy \<^verbatim>\<open>x_domains\<close>. The domain of \<open>y\<close>
  (\<open>dy\<close>, \<open>None\<close> when \<open>y\<close> has no entry) is looked up once per value of \<open>x\<close>.
\<close>

fun revise_outer ::
  "bool \<Rightarrow> nat \<Rightarrow> nat \<Rightarrow> word list option \<Rightarrow> word list \<Rightarrow> word list \<times> bool
   \<Rightarrow> error + (word list \<times> bool)" where
  "revise_outer same i j dy [] st = Inr st"
| "revise_outer same i j dy (val_x # x_domains) st =
     (case dy of
        None \<Rightarrow> Inl KeyError
      | Some ys \<Rightarrow>
          (case revise_inner same i j val_x (length ys) ys 0 st of
             Inl e \<Rightarrow> Inl e
           | Inr st' \<Rightarrow> revise_outer same i j dy x_domains st'))"

definition revise :: "crossword \<Rightarrow> domains \<Rightarrow> variable \<Rightarrow> variable \<Rightarrow> error + (bool \<times> domains)" where
  "revise cw doms x y =
     (case overlaps cw (x, y) of
        None \<Rightarrow> Inl KeyError
      | Some None \<Rightarrow> Inr (False, doms)
      | Some (Some (i, j)) \<Rightarrow>
          (case map_of doms x of
             None \<Rightarrow> Inl KeyError
           | Some dx \<Rightarrow>
               (case revise_outer (x = y) i j (map_of doms y) dx (dx, False) of
                  Inl e \<Rightarrow> Inl e
                | Inr (dx', made) \<Rightarrow> Inr (made, AList.update x dx' doms))))"

text \<open>
  The loop of \<^verbatim>\<open>ac3\<close> runs until its queue is empty, and the queue grows whenever a
  domain shrinks. It terminates because the total size of the domains never grows and
  drops at every revision; the facts about \<open>revise\<close> that show this come first.
\<close>

definition dom_size :: "domains \<Rightarrow> nat" where
  "dom_size doms = sum_list (map (\<lambda>(v, d). length d) doms)"

lemma set_remove_length:
  "set_remove d w = Inr d' \<Longrightarrow> length d' < length d"
  by (auto simp: set_remove_def length_removeAll_less split: if_splits)

lemma revise_inner_length:
  "revise_inner same i j val_x n ys count (dx, made) = Inr (dx', made') \<Longrightarrow>
   length dx' \<le> length dx \<and> (made' \<longrightarrow> made \<or> length dx' < length dx)"
proof (induction ys arbitrary: count dx made)
  case Nil
  then show ?case by simp
next
  case (Cons val_y rest)
  then show ?case
    by (fastforce split: if_splits sum.splits dest: set_remove_length)
qed

lemma revise_outer_length:
  "revise_outer same i j dy xs (dx, made) = Inr (dx', made') \<Longrightarrow>
   length dx' \<le> length dx \<and> (made' \<longrightarrow> made \<or> length dx' < length dx)"
proof (induction xs arbitrary: dx made)
  case Nil
  then show ?case by simp
next
  case (Cons val_x xs)
  then show ?case
    by (fastforce split: option.splits sum.splits dest: revise_inner_length)
qed

lemma dom_size_update:
  "map_of doms x = Some d \<Longrightarrow>
   dom_size (AList.update x d' doms) + length d = dom_size doms + length d'"
  by (induction doms) (auto simp: dom_size_def)

lemma revise_size:
  assumes "revise cw doms x y = Inr (r, doms')"
  shows "dom_size doms' \<le> dom_size doms \<and> (r \<longrightarrow> dom_size doms' < dom_size doms)"
proof (cases "overlaps cw (x, y)")
  case None
  with assms show ?thesis by (simp add: revise_def)
next
  case (Some ov)
  show ?thesis
  proof (cases ov)
    case None
    with Some assms show ?thesis by (simp add: revise_def)
  next
    case (Some ij)
    obtain i j where ij: "ij = (i, j)" by (cases ij)
    from assms \<open>overlaps cw (x, y) = Some ov\<close> Some ij
    obtain dx dx' where dx: "map_of doms x = Some dx"
      and out: "revise_outer (x = y) i j (map_of doms y) dx (dx, False) = Inr (dx', r)"
      and doms': "doms' = AList.update x dx' doms"
      by (auto simp: revise_def split: option.splits sum.splits prod.splits)
    from revise_outer_length [OF out]
    have "length dx' \<le> length dx" and "r \<longrightarrow> length dx' < length dx" by simp_all
    with dom_size_update [OF dx, of dx'] doms' show ?thesis by auto
  qed
qed

text \<open>
  The \<^verbatim>\<open>while\<close> loop of \<^verbatim>\<open>ac3\<close>: the queue is the list \<open>arcs\<close>, popped at the front
  and extended at the back. \<^verbatim>\<open>x_neighbors.remove(y)\<close> is a KeyError when \<open>y\<close> is not a
  neighbor of \<open>x\<close>.
\<close>

function ac3_loop :: "crossword \<Rightarrow> domains \<Rightarrow> arc list \<Rightarrow> error + (bool \<times> domains)" where
  "ac3_loop cw doms [] = Inr (True, doms)"
| "ac3_loop cw doms ((x, y) # arcs) =
     (case revise cw doms x y of
        Inl e \<Rightarrow> Inl e
      | Inr (revised, doms') \<Rightarrow>
          if revised then
            (case map_of doms' x of
               None \<Rightarrow> Inl KeyError
             | Some dx \<Rightarrow>
                 if length dx = 0 then Inr (False, doms')
                 else if y \<notin> set (neighbors cw x) then Inl KeyError
                 else ac3_loop cw doms'
                        (arcs @ map (\<lambda>z. (z, x)) (removeAll y (neighbors cw x))))
          else ac3_loop cw doms' arcs)"
  by pat_completeness auto
termination
proof (relation "(\<lambda>(cw, doms, arcs). dom_size doms) <*mlex*>
                 measure (\<lambda>(cw, doms, arcs). length arcs)")
  show "wf ((\<lambda>(cw, doms, arcs). dom_size doms) <*mlex*>
            measure (\<lambda>(cw, doms, arcs). length arcs))"
    by (simp add: wf_mlex)
next
  fix cw doms x y arcs p revised doms'
  assume "revise cw doms x y = Inr p" "(revised, doms') = p" "revised"
  then show "((cw, doms', arcs @ map (\<lambda>z. (z, x)) (removeAll y (neighbors cw x))),
              cw, doms, (x, y) # arcs)
        \<in> (\<lambda>(cw, doms, arcs). dom_size doms) <*mlex*>
           measure (\<lambda>(cw, doms, arcs). length arcs)"
    using revise_size [of cw doms x y revised doms'] by (auto intro: mlex_less)
next
  fix cw doms x y arcs p revised doms'
  assume "revise cw doms x y = Inr p" "(revised, doms') = p" "\<not> revised"
  then show "((cw, doms', arcs), cw, doms, (x, y) # arcs)
        \<in> (\<lambda>(cw, doms, arcs). dom_size doms) <*mlex*>
           measure (\<lambda>(cw, doms, arcs). length arcs)"
    using revise_size [of cw doms x y revised doms'] by (auto intro!: mlex_leq)
qed

text \<open>
  The initial queue: every pair of a variable and one of its neighbors, appended unless
  it is in the queue already.
\<close>

fun arcs_of_neighbors :: "variable \<Rightarrow> variable list \<Rightarrow> arc list \<Rightarrow> arc list" where
  "arcs_of_neighbors variable [] arcs = arcs"
| "arcs_of_neighbors variable (neighbor # ns) arcs =
     arcs_of_neighbors variable ns
       (if (variable, neighbor) \<notin> set arcs then arcs @ [(variable, neighbor)] else arcs)"

fun arcs_of_variables :: "crossword \<Rightarrow> variable list \<Rightarrow> arc list \<Rightarrow> arc list" where
  "arcs_of_variables cw [] arcs = arcs"
| "arcs_of_variables cw (variable # vs) arcs =
     arcs_of_variables cw vs (arcs_of_neighbors variable (neighbors cw variable) arcs)"

text \<open>
  \<^verbatim>\<open>ac3(arcs=None)\<close>: the argument is \<open>None\<close> or a list; \<^verbatim>\<open>not arcs\<close> holds for
  \<open>None\<close> and for the empty list.
\<close>

definition ac3 :: "crossword \<Rightarrow> domains \<Rightarrow> arc list option \<Rightarrow> error + (bool \<times> domains)" where
  "ac3 cw doms arcs =
     (case arcs of
        None \<Rightarrow> ac3_loop cw doms (arcs_of_variables cw (variables cw) [])
      | Some [] \<Rightarrow> ac3_loop cw doms (arcs_of_variables cw (variables cw) [])
      | Some (a # as) \<Rightarrow> ac3_loop cw doms (a # as))"

section \<open>Consistency of an assignment\<close>

text \<open>
  \<^verbatim>\<open>assignment_complete\<close>: the test \<^verbatim>\<open>key not in assignment\<close> is never true for a key
  of the assignment; an empty word is falsy.
\<close>

definition assignment_complete :: "crossword \<Rightarrow> assignment \<Rightarrow> bool" where
  "assignment_complete cw asg =
     (if \<exists>(key, w) \<in> set asg. w = [] then False
      else if length asg \<noteq> length (variables cw) then False
      else True)"

text \<open>
  The loop of \<^verbatim>\<open>consistent\<close> over the neighbors of \<open>key\<close>, whose word is \<open>w\<close>:
  \<open>Inr False\<close> is the \<^verbatim>\<open>return False\<close>, \<open>Inr True\<close> the end of the loop. The letter of
  the neighbor is read from \<^verbatim>\<open>self.domains[neighbor].copy().pop()\<close>: \<^verbatim>\<open>pop\<close> takes an
  arbitrary member of the copy, here the first word of the domain in iteration order,
  and is a KeyError on the empty set.
\<close>

fun consistent_neighbors ::
  "crossword \<Rightarrow> domains \<Rightarrow> variable \<Rightarrow> word \<Rightarrow> variable list \<Rightarrow> error + bool" where
  "consistent_neighbors cw doms key w [] = Inr True"
| "consistent_neighbors cw doms key w (neighbor # ns) =
     (case overlaps cw (key, neighbor) of
        None \<Rightarrow> Inl KeyError
      | Some None \<Rightarrow> consistent_neighbors cw doms key w ns
      | Some (Some (i, j)) \<Rightarrow>
          if length w \<le> i then Inl IndexError
          else (case map_of doms neighbor of
                  None \<Rightarrow> Inl KeyError
                | Some [] \<Rightarrow> Inl KeyError
                | Some (popped # d) \<Rightarrow>
                    if length popped \<le> j then Inl IndexError
                    else if w ! i \<noteq> popped ! j then Inr False
                    else consistent_neighbors cw doms key w ns))"

text \<open>
  The loop over the keys of the assignment, in insertion order; \<open>word\<close> is the local
  variable of that name, \<open>None\<close> at the start.
\<close>

fun consistent_loop ::
  "crossword \<Rightarrow> domains \<Rightarrow> assignment \<Rightarrow> word option \<Rightarrow> error + bool" where
  "consistent_loop cw doms [] word = Inr True"
| "consistent_loop cw doms ((key, w) # rest) word =
     (if var_length key \<noteq> length w then Inr False
      else if Some w \<noteq> word then
        (case consistent_neighbors cw doms key w (neighbors cw key) of
           Inl e \<Rightarrow> Inl e
         | Inr ok \<Rightarrow> if ok then consistent_loop cw doms rest (Some w) else Inr False)
      else Inr False)"

definition consistent :: "crossword \<Rightarrow> domains \<Rightarrow> assignment \<Rightarrow> error + bool" where
  "consistent cw doms asg = consistent_loop cw doms asg None"

section \<open>Ordering heuristics\<close>

text \<open>
  The innermost loop of \<^verbatim>\<open>order_domain_values\<close>, over the values of one neighbor's
  domain: \<open>c\<close> is the counter \<^verbatim>\<open>assign_values[value]\<close>. Subscripting the overlap
  \<^verbatim>\<open>None\<close> is a TypeError.
\<close>

fun count_values :: "(nat \<times> nat) option \<Rightarrow> word \<Rightarrow> word list \<Rightarrow> nat \<Rightarrow> error + nat" where
  "count_values overlap val [] c = Inr c"
| "count_values overlap val (neighbor_value # rest) c =
     (case overlap of
        None \<Rightarrow> Inl TypeError
      | Some (i, j) \<Rightarrow>
          if length val \<le> i \<or> length neighbor_value \<le> j then Inl IndexError
          else count_values overlap val rest
                 (if val ! i = neighbor_value ! j then c + 1 else c))"

text \<open>The loop over the neighbors of \<open>var\<close>; assigned neighbors are skipped.\<close>

fun count_neighbors ::
  "crossword \<Rightarrow> domains \<Rightarrow> variable \<Rightarrow> assignment \<Rightarrow> word \<Rightarrow> variable list \<Rightarrow> nat
   \<Rightarrow> error + nat" where
  "count_neighbors cw doms var asg val [] c = Inr c"
| "count_neighbors cw doms var asg val (neighbor # ns) c =
     (if neighbor \<in> fst ` set asg then count_neighbors cw doms var asg val ns c
      else (case overlaps cw (var, neighbor) of
              None \<Rightarrow> Inl KeyError
            | Some overlap \<Rightarrow>
                (case map_of doms neighbor of
                   None \<Rightarrow> Inl KeyError
                 | Some d \<Rightarrow>
                     (case count_values overlap val d c of
                        Inl e \<Rightarrow> Inl e
                      | Inr c' \<Rightarrow> count_neighbors cw doms var asg val ns c'))))"

text \<open>
  The loop over the values of \<open>var\<close>: the dict \<^verbatim>\<open>assign_values\<close> as the list of its
  items, in the order of the domain.
\<close>

fun assign_values ::
  "crossword \<Rightarrow> domains \<Rightarrow> variable \<Rightarrow> assignment \<Rightarrow> word list
   \<Rightarrow> error + (word \<times> nat) list" where
  "assign_values cw doms var asg [] = Inr []"
| "assign_values cw doms var asg (val # vals) =
     (case count_neighbors cw doms var asg val (neighbors cw var) 0 of
        Inl e \<Rightarrow> Inl e
      | Inr c \<Rightarrow>
          (case assign_values cw doms var asg vals of
             Inl e \<Rightarrow> Inl e
           | Inr items \<Rightarrow> Inr ((val, c) # items)))"

text \<open>\<^verbatim>\<open>sorted\<close> is stable, as \<open>sort_key\<close> is.\<close>

definition order_domain_values ::
  "crossword \<Rightarrow> domains \<Rightarrow> variable \<Rightarrow> assignment \<Rightarrow> error + word list" where
  "order_domain_values cw doms var asg =
     (case map_of doms var of
        None \<Rightarrow> Inl KeyError
      | Some d \<Rightarrow>
          (case assign_values cw doms var asg d of
             Inl e \<Rightarrow> Inl e
           | Inr items \<Rightarrow> Inr (map fst (sort_key snd items))))"

text \<open>
  \<^verbatim>\<open>select_unassigned_variable\<close> returns the first variable, in the iteration order of
  the set, that is not a key of the assignment; it returns \<^verbatim>\<open>None\<close> when there is none.
\<close>

definition select_unassigned_variable :: "crossword \<Rightarrow> assignment \<Rightarrow> variable option" where
  "select_unassigned_variable cw asg = find (\<lambda>var. var \<notin> fst ` set asg) (variables cw)"

section \<open>Backtracking search\<close>

text \<open>
  The number of variables that are not keys of the assignment bounds the depth of the
  search; \<open>unassigned_but\<close> leaves one more variable out.
\<close>

definition unassigned :: "crossword \<Rightarrow> assignment \<Rightarrow> nat" where
  "unassigned cw asg = length (filter (\<lambda>v. v \<notin> fst ` set asg) (variables cw))"

definition unassigned_but :: "crossword \<Rightarrow> variable \<Rightarrow> assignment \<Rightarrow> nat" where
  "unassigned_but cw var asg =
     length (filter (\<lambda>v. v \<noteq> var) (filter (\<lambda>v. v \<notin> fst ` set asg) (variables cw)))"

lemma select_unassigned_variable_Some:
  "select_unassigned_variable cw asg = Some var \<Longrightarrow>
   var \<in> set (variables cw) \<and> var \<notin> fst ` set asg"
  by (auto simp: select_unassigned_variable_def find_Some_iff)

lemma unassigned_but_less:
  "select_unassigned_variable cw asg = Some var \<Longrightarrow> unassigned_but cw var asg < unassigned cw asg"
  unfolding unassigned_but_def unassigned_def
  by (rule length_filter_less) (use select_unassigned_variable_Some in auto)

lemma unassigned_update:
  "unassigned cw (AList.update var val asg) = unassigned_but cw var asg"
  unfolding unassigned_but_def unassigned_def
  by (simp add: dom_update conj_commute)

text \<open>
  \<^verbatim>\<open>backtrack\<close> and its loop over the ordered values (\<open>try_values\<close>). The source works
  on one dict: it stores \<^verbatim>\<open>assignment[var] = value\<close> before the recursive call and
  deletes the key when the call returns \<^verbatim>\<open>None\<close>, so each turn of the loop starts from
  the assignment the loop was entered with; the model passes that assignment on.
  With the variable \<^verbatim>\<open>None\<close> (nothing left to select), \<^verbatim>\<open>order_domain_values\<close> is a
  KeyError. A result that is an empty dict is falsy.
\<close>

function backtrack :: "crossword \<Rightarrow> domains \<Rightarrow> assignment \<Rightarrow> error + assignment option"
  and try_values ::
    "crossword \<Rightarrow> domains \<Rightarrow> variable \<Rightarrow> assignment \<Rightarrow> word list \<Rightarrow> error + assignment option"
where
  "backtrack cw doms asg =
     (if assignment_complete cw asg then Inr (Some asg)
      else (case select_unassigned_variable cw asg of
              None \<Rightarrow> Inl KeyError
            | Some var \<Rightarrow>
                (case order_domain_values cw doms var asg of
                   Inl e \<Rightarrow> Inl e
                 | Inr vals \<Rightarrow> try_values cw doms var asg vals)))"
| "try_values cw doms var asg [] = Inr None"
| "try_values cw doms var asg (val # vals) =
     (case consistent cw doms (AList.update var val asg) of
        Inl e \<Rightarrow> Inl e
      | Inr ok \<Rightarrow>
          if ok then
            (case backtrack cw doms (AList.update var val asg) of
               Inl e \<Rightarrow> Inl e
             | Inr None \<Rightarrow> try_values cw doms var asg vals
             | Inr (Some result) \<Rightarrow>
                 if result \<noteq> [] then Inr (Some result)
                 else try_values cw doms var asg vals)
          else try_values cw doms var asg vals)"
  by pat_completeness auto
termination
  by (relation "measures
        [\<lambda>p. case p of Inl (cw, doms, asg) \<Rightarrow> unassigned cw asg
                     | Inr (cw, doms, var, asg, vals) \<Rightarrow> unassigned_but cw var asg,
         \<lambda>p. case p of Inl (cw, doms, asg) \<Rightarrow> 0
                     | Inr (cw, doms, var, asg, vals) \<Rightarrow> Suc (length vals)]")
     (auto simp: unassigned_but_less unassigned_update)

text \<open>\<^verbatim>\<open>solve\<close>: the result of \<^verbatim>\<open>ac3\<close> is not looked at.\<close>

definition solve :: "crossword \<Rightarrow> error + assignment option" where
  "solve cw =
     (case enforce_node_consistency (init_domains cw) of
        Inl e \<Rightarrow> Inl e
      | Inr doms \<Rightarrow>
          (case ac3 cw doms None of
             Inl e \<Rightarrow> Inl e
           | Inr (arc_consistent, doms') \<Rightarrow> backtrack cw doms' []))"

section \<open>Vocabulary of the statements\<close>

text \<open>
  The domain of a variable as a set of words (empty when the variable has no entry),
  and the support of a value \<open>a\<close> of \<open>x\<close> in the domain \<open>ys\<close> of \<open>y\<close>, for the
  overlap \<open>(i, j)\<close>: some value of \<open>ys\<close> has at \<open>j\<close> the letter that \<open>a\<close> has at \<open>i\<close>.
\<close>

definition domain_of :: "domains \<Rightarrow> variable \<Rightarrow> word set" where
  "domain_of doms v = (case map_of doms v of None \<Rightarrow> {} | Some d \<Rightarrow> set d)"

definition supported :: "nat \<Rightarrow> nat \<Rightarrow> word list \<Rightarrow> word \<Rightarrow> bool" where
  "supported i j ys a = (\<exists>b \<in> set ys. b ! j = a ! i)"

section \<open>What the specification asks of the value ordering\<close>

text \<open>
  The ruled-out count in the words of the specification of \<^verbatim>\<open>order_domain_values\<close>:
  the sum, over each neighbor of \<open>var\<close> that is not assigned, of the number of words of
  the neighbor's domain that disagree with \<open>val\<close> at the shared square. It is compared
  below with the order the source returns.
\<close>

definition ruled_out_count ::
  "crossword \<Rightarrow> domains \<Rightarrow> variable \<Rightarrow> assignment \<Rightarrow> word \<Rightarrow> nat" where
  "ruled_out_count cw doms var asg val =
     sum_list
       (map (\<lambda>n. case overlaps cw (var, n) of
                   Some (Some (i, j)) \<Rightarrow>
                     (case map_of doms n of
                        Some d \<Rightarrow> length (filter (\<lambda>w. val ! i \<noteq> w ! j) d)
                      | None \<Rightarrow> 0)
                 | _ \<Rightarrow> 0)
          (filter (\<lambda>n. n \<notin> fst ` set asg) (neighbors cw var)))"

section \<open>Example crosswords\<close>

text \<open>
  A grid of three columns and four rows whose first row and middle column are open:
  one slot across of length 3 and one slot down of length 4, crossing at the second
  letter of the first and the first letter of the second.
\<close>

definition slot_a :: variable where
  "slot_a = \<lparr>var_i = 0, var_j = 0, var_direction = ACROSS, var_length = 3\<rparr>"

definition slot_d :: variable where
  "slot_d = \<lparr>var_i = 0, var_j = 1, var_direction = DOWN, var_length = 4\<rparr>"

definition crossing_overlaps :: "arc \<Rightarrow> (nat \<times> nat) option option" where
  "crossing_overlaps a =
     (if a = (slot_a, slot_d) then Some (Some (1, 0))
      else if a = (slot_d, slot_a) then Some (Some (0, 1))
      else None)"

definition crossing :: "word list \<Rightarrow> crossword" where
  "crossing ws = \<lparr>variables = [slot_a, slot_d], words = ws, overlaps = crossing_overlaps\<rparr>"

text \<open>
  A grid of three columns and five rows whose rows 0, 2 and 4 are open: three slots
  across of length 3, none of which meets another.
\<close>

definition row0 :: variable where
  "row0 = \<lparr>var_i = 0, var_j = 0, var_direction = ACROSS, var_length = 3\<rparr>"

definition row2 :: variable where
  "row2 = \<lparr>var_i = 2, var_j = 0, var_direction = ACROSS, var_length = 3\<rparr>"

definition row4 :: variable where
  "row4 = \<lparr>var_i = 4, var_j = 0, var_direction = ACROSS, var_length = 3\<rparr>"

definition three_rows :: "word list \<Rightarrow> crossword" where
  "three_rows ws =
     \<lparr>variables = [row0, row2, row4], words = ws,
      overlaps = (\<lambda>(x, y). if x \<in> {row0, row2, row4} \<and> y \<in> {row0, row2, row4} \<and> x \<noteq> y
                           then Some None else None)\<rparr>"

section \<open>Node consistency removes exactly the words of the wrong length\<close>

lemma node_words_filter:
  "distinct rest \<Longrightarrow> set rest \<subseteq> set d \<Longrightarrow>
   node_words n rest d = Inr (filter (\<lambda>u. u \<notin> set rest \<or> length u = n) d)"
proof (induction rest arbitrary: d)
  case Nil
  then show ?case by simp
next
  case (Cons w rest)
  show ?case
  proof (cases "length w = n")
    case True
    have "filter (\<lambda>u. u \<notin> set rest \<or> length u = n) d =
          filter (\<lambda>u. u \<notin> set (w # rest) \<or> length u = n) d"
      using True by (intro filter_cong) auto
    with Cons True show ?thesis by simp
  next
    case False
    from Cons.prems have w: "w \<in> set d" "w \<notin> set rest" "distinct rest"
      and sub: "set rest \<subseteq> set (removeAll w d)" by auto
    have "filter (\<lambda>u. u \<notin> set rest \<or> length u = n) (removeAll w d) =
          filter (\<lambda>u. u \<notin> set (w # rest) \<or> length u = n) d"
      using False by (induction d) auto
    with Cons.IH [OF w(3) sub] w False show ?thesis
      by (simp add: set_remove_def)
  qed
qed

lemma node_words_self:
  assumes "distinct d"
  shows "node_words n d d = Inr (filter (\<lambda>u. length u = n) d)"
proof -
  from assms have "node_words n d d = Inr (filter (\<lambda>u. u \<notin> set d \<or> length u = n) d)"
    by (rule node_words_filter) simp
  moreover have "filter (\<lambda>u. u \<notin> set d \<or> length u = n) d = filter (\<lambda>u. length u = n) d"
    by (intro filter_cong) auto
  ultimately show ?thesis by simp
qed

lemma node_keys_filter:
  assumes "\<forall>v d. map_of doms v = Some d \<longrightarrow> distinct d" and "set keys \<subseteq> fst ` set doms"
  shows "\<exists>doms'. node_keys keys doms = Inr doms' \<and> map fst doms' = map fst doms \<and>
           (\<forall>v. map_of doms' v =
              (if v \<in> set keys
               then map_option (filter (\<lambda>u. length u = var_length v)) (map_of doms v)
               else map_of doms v))"
  using assms
proof (induction keys arbitrary: doms)
  case Nil
  then show ?case by simp
next
  case (Cons key keys)
  from Cons.prems(2) obtain d where d: "map_of doms key = Some d"
    by (cases "map_of doms key") (auto simp: map_of_eq_None_iff)
  with Cons.prems(1) have dist: "distinct d" by blast
  let ?d' = "filter (\<lambda>u. length u = var_length key) d"
  let ?doms1 = "AList.update key ?d' doms"
  have 1: "\<forall>v d. map_of ?doms1 v = Some d \<longrightarrow> distinct d"
    using Cons.prems(1) dist by (auto simp: update_conv')
  have 2: "set keys \<subseteq> fst ` set ?doms1"
    using Cons.prems(2) by (auto simp: dom_update)
  from Cons.IH [OF 1 2] obtain doms' where
    r: "node_keys keys ?doms1 = Inr doms'" and k: "map fst doms' = map fst ?doms1"
    and m: "\<forall>v. map_of doms' v =
              (if v \<in> set keys
               then map_option (filter (\<lambda>u. length u = var_length v)) (map_of ?doms1 v)
               else map_of ?doms1 v)"
    by blast
  have "node_keys (key # keys) doms = Inr doms'"
    using d r node_words_self [OF dist] by simp
  moreover have "map fst doms' = map fst doms"
    using k d by (simp add: update_keys) (metis domI dom_map_of_conv_image_fst image_set)
  moreover have "\<forall>v. map_of doms' v =
              (if v \<in> set (key # keys)
               then map_option (filter (\<lambda>u. length u = var_length v)) (map_of doms v)
               else map_of doms v)"
    using m d by (auto simp: update_conv')
  ultimately show ?case by blast
qed

text \<open>
  Claim C9. When every domain is a set (a list without repetition),
  \<^verbatim>\<open>enforce_node_consistency\<close> returns normally, keeps the keys of \<^verbatim>\<open>self.domains\<close>,
  and leaves in the domain of every variable \<open>v\<close> exactly the words of the old domain
  whose length is \<open>v.length\<close>: every mismatched word is removed and no matching word is.
\<close>

theorem node_consistency:
  assumes "\<forall>(v, d) \<in> set doms. distinct d"
  shows "\<exists>doms'. enforce_node_consistency doms = Inr doms' \<and> map fst doms' = map fst doms \<and>
           (\<forall>v d. map_of doms v = Some d \<longrightarrow>
              map_of doms' v = Some (filter (\<lambda>w. length w = var_length v) d))"
proof -
  have 1: "\<forall>v d. map_of doms v = Some d \<longrightarrow> distinct d"
    using assms by (auto dest: map_of_SomeD)
  have 2: "set (map fst doms) \<subseteq> fst ` set doms" by simp
  from node_keys_filter [OF 1 2] obtain doms' where
    r: "node_keys (map fst doms) doms = Inr doms'" and k: "map fst doms' = map fst doms"
    and m: "\<forall>v. map_of doms' v =
              (if v \<in> set (map fst doms)
               then map_option (filter (\<lambda>u. length u = var_length v)) (map_of doms v)
               else map_of doms v)"
    by blast
  have "\<forall>v d. map_of doms v = Some d \<longrightarrow>
              map_of doms' v = Some (filter (\<lambda>w. length w = var_length v) d)"
  proof (intro allI impI)
    fix v d assume vd: "map_of doms v = Some d"
    then have "v \<in> set (map fst doms)" by (auto dest: map_of_SomeD intro: rev_image_eqI)
    with m vd show "map_of doms' v = Some (filter (\<lambda>w. length w = var_length v) d)" by simp
  qed
  with r k show ?thesis by (auto simp: enforce_node_consistency_def)
qed

theorem node_consistency_witness:
  "distinct [''CAT'', ''ARMY''] \<and>
   (\<exists>doms'. enforce_node_consistency (init_domains (crossing [''CAT'', ''ARMY''])) = Inr doms' \<and>
      map fst doms' = [slot_a, slot_d] \<and>
      map_of doms' slot_a = Some [''CAT''] \<and> map_of doms' slot_d = Some [''ARMY''])"
proof -
  let ?D = "init_domains (crossing [''CAT'', ''ARMY''])"
  have D: "?D = [(slot_a, [''CAT'', ''ARMY'']), (slot_d, [''CAT'', ''ARMY''])]"
    by (simp add: init_domains_def crossing_def)
  have ne: "slot_a \<noteq> slot_d" by (simp add: slot_a_def slot_d_def)
  have "\<forall>(v, d) \<in> set ?D. distinct d" by (simp add: D)
  from node_consistency [OF this] obtain doms' where
    r: "enforce_node_consistency ?D = Inr doms'" and k: "map fst doms' = map fst ?D"
    and m: "\<forall>v d. map_of ?D v = Some d \<longrightarrow>
              map_of doms' v = Some (filter (\<lambda>w. length w = var_length v) d)"
    by blast
  from m have "map_of doms' slot_a = Some [''CAT'']"
    by (simp add: D) (simp add: slot_a_def)
  moreover from m ne have "map_of doms' slot_d = Some [''ARMY'']"
    by (simp add: D) (simp add: slot_d_def)
  ultimately show ?thesis using r k by (simp add: D)
qed

section \<open>Revise only shrinks the domain of its first argument\<close>

lemma set_remove_set:
  "set_remove d w = Inr d' \<Longrightarrow> set d' \<subset> set d"
  by (auto simp: set_remove_def split: if_splits)

lemma revise_inner_sets:
  "revise_inner same i j val_x n ys count (dx, made) = Inr (dx', made') \<Longrightarrow>
   set dx' \<subseteq> set dx \<and> (made' \<longleftrightarrow> made \<or> set dx' \<subset> set dx) \<and> (\<not> made' \<longrightarrow> dx' = dx)"
proof (induction ys arbitrary: count dx made)
  case Nil
  then show ?case by auto
next
  case (Cons val_y rest)
  let ?c = "if val_y ! j \<noteq> val_x ! i then count + 1 else count"
  show ?case
  proof (cases "?c = n")
    case True
    with Cons.prems obtain dx1 where rm: "set_remove dx val_x = Inr dx1"
      and rec: "revise_inner same i j val_x n rest ?c (dx1, True) = Inr (dx', made')"
      by (auto split: if_splits sum.splits)
    from Cons.IH [OF rec] set_remove_set [OF rm] show ?thesis by auto
  next
    case False
    with Cons.prems have "revise_inner same i j val_x n rest ?c (dx, made) = Inr (dx', made')"
      by (auto split: if_splits)
    from Cons.IH [OF this] show ?thesis .
  qed
qed

lemma revise_outer_sets:
  "revise_outer same i j dy xs (dx, made) = Inr (dx', made') \<Longrightarrow>
   set dx' \<subseteq> set dx \<and> (made' \<longleftrightarrow> made \<or> set dx' \<subset> set dx) \<and> (\<not> made' \<longrightarrow> dx' = dx)"
proof (induction xs arbitrary: dx made)
  case Nil
  then show ?case by auto
next
  case (Cons val_x xs)
  from Cons.prems obtain ys dx1 made1 where
    inner: "revise_inner same i j val_x (length ys) ys 0 (dx, made) = Inr (dx1, made1)"
    and rec: "revise_outer same i j dy xs (dx1, made1) = Inr (dx', made')"
    by (auto split: option.splits sum.splits)
  from revise_inner_sets [OF inner] Cons.IH [OF rec] show ?case by auto
qed

lemma revise_inner_total:
  assumes "\<forall>b \<in> set ys. j < length b" and "i < length val_x"
    and "count + length ys \<le> n" and "val_x \<in> set dx"
  shows "revise_inner False i j val_x n ys count (dx, made) =
           Inr (if ys \<noteq> [] \<and> count + length (filter (\<lambda>b. b ! j \<noteq> val_x ! i) ys) = n
                then (removeAll val_x dx, True) else (dx, made))"
  using assms
proof (induction ys arbitrary: count)
  case Nil
  then show ?case by simp
next
  case (Cons val_y rest)
  let ?c = "if val_y ! j \<noteq> val_x ! i then count + 1 else count"
  show ?case
  proof (cases "?c = n")
    case True
    with Cons.prems(3) have "rest = []" and "val_y ! j \<noteq> val_x ! i"
      by (auto split: if_splits)
    with True Cons.prems show ?thesis by (simp add: set_remove_def)
  next
    case False
    have "?c + length rest \<le> n" using Cons.prems(3) by auto
    with Cons.IH [of ?c] Cons.prems
    have "revise_inner False i j val_x n rest ?c (dx, made) =
           Inr (if rest \<noteq> [] \<and> ?c + length (filter (\<lambda>b. b ! j \<noteq> val_x ! i) rest) = n
                then (removeAll val_x dx, True) else (dx, made))"
      by simp
    with False Cons.prems show ?thesis by (auto simp: not_le)
  qed
qed

lemma revise_inner_supported:
  assumes "\<forall>b \<in> set ys. j < length b" and "i < length val_x" and "val_x \<in> set dx"
  shows "revise_inner False i j val_x (length ys) ys 0 (dx, made) =
           Inr (if ys = [] \<or> supported i j ys val_x then (dx, made)
                else (removeAll val_x dx, True))"
proof -
  have "length (filter (\<lambda>b. b ! j \<noteq> val_x ! i) ys) = length ys \<longleftrightarrow> \<not> supported i j ys val_x"
    unfolding supported_def by (metis (mono_tags, lifting) filter_True filter_id_conv length_filter_less less_irrefl_nat)
  with revise_inner_total [OF assms(1,2) _ assms(3), of 0 "length ys" made] show ?thesis
    by auto
qed


lemma revise_outer_total:
  assumes "distinct xs" and "set xs \<subseteq> set dx"
    and "\<forall>a \<in> set xs. i < length a" and "\<forall>b \<in> set ys. j < length b"
  shows "revise_outer False i j (Some ys) xs (dx, made) =
           Inr (filter (\<lambda>a. a \<notin> set xs \<or> ys = [] \<or> supported i j ys a) dx,
                made \<or> (\<exists>a \<in> set xs. \<not> (ys = [] \<or> supported i j ys a)))"
  using assms(1-3)
proof (induction xs arbitrary: dx made)
  case Nil
  then show ?case by simp
next
  case (Cons val_x xs)
  let ?keep = "\<lambda>a. ys = [] \<or> supported i j ys a"
  from Cons.prems have mem: "val_x \<in> set dx" and len: "i < length val_x"
    and fresh: "val_x \<notin> set xs" and dist: "distinct xs"
    and lens: "\<forall>a \<in> set xs. i < length a" by auto
  note inner = revise_inner_supported [OF assms(4) len mem, of made]
  show ?case
  proof (cases "?keep val_x")
    case True
    from Cons.prems have sub: "set xs \<subseteq> set dx" by auto
    have "filter (\<lambda>a. a \<notin> set xs \<or> ?keep a) dx =
          filter (\<lambda>a. a \<notin> set (val_x # xs) \<or> ?keep a) dx"
      using True by (intro filter_cong) auto
    with Cons.IH [OF dist sub lens, of made] inner True show ?thesis by auto
  next
    case False
    from Cons.prems fresh have sub: "set xs \<subseteq> set (removeAll val_x dx)" by auto
    have "filter (\<lambda>a. a \<notin> set xs \<or> ?keep a) (removeAll val_x dx) =
          filter (\<lambda>a. a \<notin> set (val_x # xs) \<or> ?keep a) dx"
      using False by (induction dx) auto
    with Cons.IH [OF dist sub lens, of True] inner False show ?thesis by auto
  qed
qed

lemma revise_exact:
  assumes "x \<noteq> y" and "overlaps cw (x, y) = Some (Some (i, j))"
    and "map_of doms x = Some dx" and "map_of doms y = Some dy" and "distinct dx"
    and "\<forall>a \<in> set dx. i < length a" and "\<forall>b \<in> set dy. j < length b"
  shows "revise cw doms x y =
           Inr (\<exists>a \<in> set dx. \<not> (dy = [] \<or> supported i j dy a),
                AList.update x (filter (\<lambda>a. dy = [] \<or> supported i j dy a) dx) doms)"
proof -
  have "filter (\<lambda>a. a \<notin> set dx \<or> dy = [] \<or> supported i j dy a) dx =
        filter (\<lambda>a. dy = [] \<or> supported i j dy a) dx"
    by (intro filter_cong) auto
  with revise_outer_total [OF assms(5) subset_refl assms(6,7), of False] assms(1-4)
  show ?thesis by (simp add: revise_def)
qed

lemma revise_sets:
  assumes "revise cw doms x y = Inr (r, doms')"
  shows "domain_of doms' x \<subseteq> domain_of doms x \<and>
         (r \<longleftrightarrow> domain_of doms' x \<subset> domain_of doms x) \<and>
         (\<forall>z. z \<noteq> x \<longrightarrow> map_of doms' z = map_of doms z) \<and>
         (overlaps cw (x, y) = Some None \<longrightarrow> \<not> r \<and> doms' = doms)"
proof (cases "overlaps cw (x, y)")
  case None
  with assms show ?thesis by (simp add: revise_def)
next
  case (Some ov)
  show ?thesis
  proof (cases ov)
    case None
    with Some assms show ?thesis by (auto simp: revise_def)
  next
    case (Some ij)
    obtain i j where ij: "ij = (i, j)" by (cases ij)
    from assms \<open>overlaps cw (x, y) = Some ov\<close> Some ij
    obtain dx dx' where dx: "map_of doms x = Some dx"
      and out: "revise_outer (x = y) i j (map_of doms y) dx (dx, False) = Inr (dx', r)"
      and doms': "doms' = AList.update x dx' doms"
      by (auto simp: revise_def split: option.splits sum.splits prod.splits)
    from revise_outer_sets [OF out]
    have "set dx' \<subseteq> set dx" and "r \<longleftrightarrow> set dx' \<subset> set dx" by simp_all
    with dx doms' \<open>overlaps cw (x, y) = Some ov\<close> Some show ?thesis
      by (simp add: domain_of_def update_conv')
  qed
qed

text \<open>
  Claim C8. For distinct variables \<open>x\<close> and \<open>y\<close>: whenever \<^verbatim>\<open>revise(x, y)\<close> returns,
  the domain of \<open>x\<close> afterwards is a subset of the one before, the result is true exactly
  when it is a proper subset, the domain of every other variable (that of \<open>y\<close> too) is
  unchanged, and without an overlap nothing changes and the result is false. The call
  does return: always when there is no overlap, and with an overlap \<open>(i, j)\<close> whenever
  both variables have a domain, that of \<open>x\<close> is a set, and the words of the two domains
  are long enough to be read at \<open>i\<close> and at \<open>j\<close>.
\<close>

theorem revise_monotone:
  assumes "x \<noteq> y"
  shows "(\<forall>r doms'. revise cw doms x y = Inr (r, doms') \<longrightarrow>
            domain_of doms' x \<subseteq> domain_of doms x \<and>
            (r \<longleftrightarrow> domain_of doms' x \<subset> domain_of doms x) \<and>
            (\<forall>z. z \<noteq> x \<longrightarrow> map_of doms' z = map_of doms z) \<and>
            (overlaps cw (x, y) = Some None \<longrightarrow> \<not> r \<and> doms' = doms)) \<and>
         (overlaps cw (x, y) = Some None \<longrightarrow> revise cw doms x y = Inr (False, doms)) \<and>
         (\<forall>i j dx dy. overlaps cw (x, y) = Some (Some (i, j)) \<and>
            map_of doms x = Some dx \<and> map_of doms y = Some dy \<and> distinct dx \<and>
            (\<forall>a \<in> set dx. i < length a) \<and> (\<forall>b \<in> set dy. j < length b) \<longrightarrow>
            (\<exists>r doms'. revise cw doms x y = Inr (r, doms')))"
proof (intro conjI allI impI)
  fix i j dx dy
  assume "overlaps cw (x, y) = Some (Some (i, j)) \<and>
            map_of doms x = Some dx \<and> map_of doms y = Some dy \<and> distinct dx \<and>
            (\<forall>a \<in> set dx. i < length a) \<and> (\<forall>b \<in> set dy. j < length b)"
  with revise_exact [OF assms, of cw i j doms dx dy]
  show "\<exists>r doms'. revise cw doms x y = Inr (r, doms')" by blast
qed (use revise_sets in \<open>auto simp: revise_def\<close>)

theorem revise_monotone_witness:
  "slot_a \<noteq> slot_d \<and>
   revise (crossing [''CAT'', ''DOG'', ''ARMY''])
     [(slot_a, [''CAT'', ''DOG'']), (slot_d, [''ARMY''])] slot_a slot_d =
     Inr (True, [(slot_a, [''CAT'']), (slot_d, [''ARMY''])]) \<and>
   domain_of [(slot_a, [''CAT'']), (slot_d, [''ARMY''])] slot_a \<subset>
     domain_of [(slot_a, [''CAT'', ''DOG'']), (slot_d, [''ARMY''])] slot_a \<and>
   map_of [(slot_a, [''CAT'']), (slot_d, [''ARMY''])] slot_d =
     map_of [(slot_a, [''CAT'', ''DOG'']), (slot_d, [''ARMY''])] slot_d"
proof -
  have ne: "slot_a \<noteq> slot_d" by (simp add: slot_a_def slot_d_def)
  have e: "revise (crossing [''CAT'', ''DOG'', ''ARMY''])
     [(slot_a, [''CAT'', ''DOG'']), (slot_d, [''ARMY''])] slot_a slot_d =
     Inr (True, [(slot_a, [''CAT'']), (slot_d, [''ARMY''])])"
    by code_simp
  note m = revise_monotone [OF ne, THEN conjunct1, THEN spec, THEN spec, THEN mp, OF e]
  note a = m [THEN conjunct2, THEN conjunct1, THEN iffD1, OF TrueI]
  note b = m [THEN conjunct2, THEN conjunct2, THEN conjunct1, THEN spec, THEN mp,
      OF ne [symmetric]]
  show ?thesis by (rule conjI [OF ne conjI [OF e conjI [OF a b]]])
qed

section \<open>The initial queue of AC-3\<close>

lemma set_arcs_of_neighbors:
  "set (arcs_of_neighbors v ns arcs) = set arcs \<union> {v} \<times> set ns"
  by (induction ns arbitrary: arcs) auto

lemma set_arcs_of_variables:
  "set (arcs_of_variables cw vs arcs) =
     set arcs \<union> {(v, n). v \<in> set vs \<and> n \<in> set (neighbors cw v)}"
  by (induction vs arbitrary: arcs) (auto simp: set_arcs_of_neighbors)

text \<open>
  Claim C10. \<^verbatim>\<open>ac3\<close> called with the empty list is \<^verbatim>\<open>ac3\<close> called with no
  argument: both run the loop from the queue rebuilt by the source, which holds every
  pair of a variable and one of its neighbors, so result and final domains are the same.
  The call with the empty list does not return at once: in the crossing with the words
  CAT, DOG and ARMY it removes DOG from the domain of the slot across.
\<close>

theorem ac3_empty_arcs:
  "ac3 cw doms (Some []) = ac3 cw doms None \<and>
   ac3 cw doms (Some []) = ac3_loop cw doms (arcs_of_variables cw (variables cw) []) \<and>
   set (arcs_of_variables cw (variables cw) []) =
     {(v, n). v \<in> set (variables cw) \<and> n \<in> set (neighbors cw v)} \<and>
   ac3 (crossing [''CAT'', ''DOG'', ''ARMY''])
       [(slot_a, [''CAT'', ''DOG'']), (slot_d, [''ARMY''])] (Some []) =
     Inr (True, [(slot_a, [''CAT'']), (slot_d, [''ARMY''])])"
proof -
  have "ac3 (crossing [''CAT'', ''DOG'', ''ARMY''])
       [(slot_a, [''CAT'', ''DOG'']), (slot_d, [''ARMY''])] (Some []) =
     Inr (True, [(slot_a, [''CAT'']), (slot_d, [''ARMY''])])"
    by code_simp
  then show ?thesis
    by (simp add: ac3_def set_arcs_of_variables)
qed

section \<open>Where the source departs from its documentation\<close>

text \<open>
  Claim C1. The test of \<^verbatim>\<open>consistent\<close> reads the letter of a neighbor from a word
  of the neighbor's domain, whether or not the neighbor is assigned. In the crossing
  with the words CAT, DOG, OVEN and ARMY, in the domains that node consistency and AC-3
  leave, the assignment of CAT to the slot across alone is rejected (the slot down is
  not assigned; the first word of its domain, OVEN, starts with O), and the assignment
  of DOG across and ARMY down is accepted although the two words disagree on the
  shared square.
\<close>

theorem consistent_reads_unassigned_neighbor:
  "enforce_node_consistency (init_domains (crossing [''CAT'', ''DOG'', ''OVEN'', ''ARMY''])) =
     Inr [(slot_a, [''CAT'', ''DOG'']), (slot_d, [''OVEN'', ''ARMY''])] \<and>
   ac3 (crossing [''CAT'', ''DOG'', ''OVEN'', ''ARMY''])
       [(slot_a, [''CAT'', ''DOG'']), (slot_d, [''OVEN'', ''ARMY''])] None =
     Inr (True, [(slot_a, [''CAT'', ''DOG'']), (slot_d, [''OVEN'', ''ARMY''])]) \<and>
   consistent (crossing [''CAT'', ''DOG'', ''OVEN'', ''ARMY''])
       [(slot_a, [''CAT'', ''DOG'']), (slot_d, [''OVEN'', ''ARMY''])]
       [(slot_a, ''CAT'')] = Inr False \<and>
   consistent (crossing [''CAT'', ''DOG'', ''OVEN'', ''ARMY''])
       [(slot_a, [''CAT'', ''DOG'']), (slot_d, [''OVEN'', ''ARMY''])]
       [(slot_a, ''DOG''), (slot_d, ''ARMY'')] = Inr True"
  by code_simp

text \<open>
  Claim C2. \<^verbatim>\<open>consistent\<close> compares each word with the word of the key before it
  only. In the grid of three separate rows, the complete assignment CAT, DOG, CAT is
  accepted although the first and the third slot hold the same word.
\<close>

theorem consistent_accepts_repeated_word:
  "assignment_complete (three_rows [''CAT'', ''DOG''])
       [(row0, ''CAT''), (row2, ''DOG''), (row4, ''CAT'')] \<and>
   consistent (three_rows [''CAT'', ''DOG'']) (init_domains (three_rows [''CAT'', ''DOG'']))
       [(row0, ''CAT''), (row2, ''DOG''), (row4, ''CAT'')] = Inr True"
  by code_simp

text \<open>
  Claim C3. \<^verbatim>\<open>select_unassigned_variable\<close> returns the first variable that is not
  assigned. In the crossing with the words CAT, BAT and ARMY, after node consistency and
  AC-3 the slot across has two values left and the slot down one, both have one
  neighbor, and the slot across is returned.
\<close>

theorem select_unassigned_variable_first:
  "enforce_node_consistency (init_domains (crossing [''CAT'', ''BAT'', ''ARMY''])) =
     Inr [(slot_a, [''CAT'', ''BAT'']), (slot_d, [''ARMY''])] \<and>
   ac3 (crossing [''CAT'', ''BAT'', ''ARMY''])
       [(slot_a, [''CAT'', ''BAT'']), (slot_d, [''ARMY''])] None =
     Inr (True, [(slot_a, [''CAT'', ''BAT'']), (slot_d, [''ARMY''])]) \<and>
   select_unassigned_variable (crossing [''CAT'', ''BAT'', ''ARMY'']) [] = Some slot_a"
  by code_simp

text \<open>
  Claim C4. \<^verbatim>\<open>order_domain_values\<close> counts the neighbor values that agree with a
  value and sorts ascending by that count. In the crossing with the words CAT, DOG,
  ARMY, AREA and OVEN the values of the slot across come back as DOG, CAT: DOG, which
  rules out two words of the slot down, before CAT, which rules out one.
\<close>

theorem order_domain_values_most_constraining_first:
  "order_domain_values (crossing [''CAT'', ''DOG'', ''ARMY'', ''AREA'', ''OVEN''])
       [(slot_a, [''CAT'', ''DOG'']), (slot_d, [''ARMY'', ''AREA'', ''OVEN''])] slot_a [] =
     Inr [''DOG'', ''CAT''] \<and>
   ruled_out_count (crossing [''CAT'', ''DOG'', ''ARMY'', ''AREA'', ''OVEN''])
       [(slot_a, [''CAT'', ''DOG'']), (slot_d, [''ARMY'', ''AREA'', ''OVEN''])] slot_a [] ''DOG'' = 2 \<and>
   ruled_out_count (crossing [''CAT'', ''DOG'', ''ARMY'', ''AREA'', ''OVEN''])
       [(slot_a, [''CAT'', ''DOG'']), (slot_d, [''ARMY'', ''AREA'', ''OVEN''])] slot_a [] ''CAT'' = 1"
  by code_simp

text \<open>
  Claim C5. In the crossing with the single word CAT, node consistency empties the
  domain of the slot down, AC-3 leaves the domains as they are, and \<^verbatim>\<open>solve\<close> ends
  with a KeyError: \<^verbatim>\<open>consistent\<close> pops a word from the empty domain.
\<close>

theorem solve_raises_KeyError:
  "solve (crossing [''CAT'']) = Inl KeyError"
  by code_simp

text \<open>
  Claim C6. In the same crossing, \<^verbatim>\<open>ac3\<close> with no argument returns true on the
  domains that node consistency leaves, although the domain of the slot down is empty
  and the value CAT of the slot across has no support in it.
\<close>

theorem ac3_true_with_unsupported_value:
  "enforce_node_consistency (init_domains (crossing [''CAT''])) =
     Inr [(slot_a, [''CAT'']), (slot_d, [])] \<and>
   ac3 (crossing [''CAT'']) [(slot_a, [''CAT'']), (slot_d, [])] None =
     Inr (True, [(slot_a, [''CAT'']), (slot_d, [])]) \<and>
   overlaps (crossing [''CAT'']) (slot_a, slot_d) = Some (Some (1, 0))"
  by code_simp

text \<open>
  Claim C7. In the crossing with the words CAT, DOG, OVEN and ARMY, \<^verbatim>\<open>backtrack\<close>
  from the empty assignment, on the domains that node consistency and AC-3 leave,
  returns DOG across and ARMY down: the second letter of DOG is not the first letter of
  ARMY, which the overlap of the two slots asks for.
\<close>

theorem backtrack_returns_conflicting_assignment:
  "backtrack (crossing [''CAT'', ''DOG'', ''OVEN'', ''ARMY''])
       [(slot_a, [''CAT'', ''DOG'']), (slot_d, [''OVEN'', ''ARMY''])] [] =
     Inr (Some [(slot_a, ''DOG''), (slot_d, ''ARMY'')]) \<and>
   overlaps (crossing [''CAT'', ''DOG'', ''OVEN'', ''ARMY'']) (slot_a, slot_d) = Some (Some (1, 0)) \<and>
   ''DOG'' ! 1 \<noteq> ''ARMY'' ! 0"
  by code_simp

end
